theory Spec2Isabelle
  imports Complex_Main "HOL-Library.Sublist"
begin

section \<open>The persisted block list\<close>

text \<open>
  An element of the block list is the dictionary \<^verbatim>\<open>{"time": ..., "ip": ..., "action": ...}\<close>
  that \<^verbatim>\<open>log_action\<close> builds: three strings. The field \<open>time\<close> holds the text
  \<^verbatim>\<open>datetime.now().isoformat()\<close> returned, \<open>action\<close> is \<^verbatim>\<open>'blocked'\<close> or
  \<^verbatim>\<open>'unblocked'\<close> in every dictionary the program writes, and the sweep treats any
  other text as "not blocked".
\<close>

record entry =
  time :: string
  ip :: string
  action :: string

text \<open>
  What \<^verbatim>\<open>data/blocklist.json\<close> can be when it is opened for reading: absent
  (\<^verbatim>\<open>FileNotFoundError\<close>), present with a content that \<^verbatim>\<open>json.load\<close> rejects
  (\<^verbatim>\<open>JSONDecodeError\<close>), present but failing to open or read with some other exception,
  or a JSON array of entries (\<^verbatim>\<open>load_blocklist\<close> is declared to return \<^verbatim>\<open>List[Dict]\<close>,
  and every array the program writes is one). A file that holds valid JSON of another
  shape, which no run of the program writes, is outside the model. Opening the file for
  writing truncates it and is taken to succeed.
\<close>

datatype store_file = Missing | Corrupt | Unreadable | Stored "entry list"

datatype exception =
  FileNotFoundError | JSONDecodeError | OSError | ValueError | OverflowError | TypeError

section \<open>The environment: child processes and the clock\<close>

text \<open>
  One call of \<^verbatim>\<open>subprocess.run\<close> starts one child. What the child does is not decided by
  the program: it may fail to start (the exception's text is \<open>start_failure\<close>), and
  otherwise it runs for \<open>duration\<close> seconds and exits with \<open>returncode\<close>, having
  written \<open>stderr\<close>. \<open>timeout_text\<close> is the text of the \<^verbatim>\<open>TimeoutExpired\<close> exception
  that Python raises when the wait is cut short.
\<close>

record process =
  start_failure :: "string option"
  duration :: real
  returncode :: int
  stderr :: string
  timeout_text :: string

text \<open>
  A naive \<^verbatim>\<open>datetime\<close> is a number of microseconds since 0001-01-01T00:00:00; an
  aware one carries its UTC offset as well. \<^verbatim>\<open>datetime.max\<close> is
  9999-12-31T23:59:59.999999.
\<close>

record datetime =
  ticks :: int
  tzinfo :: "int option"

text \<open>
  The two functions of Python's \<^verbatim>\<open>datetime\<close> module that turn an instant into text
  and back are parameters of the model: \<open>isoformat\<close> renders a naive instant,
  \<open>fromisoformat\<close> parses a text and answers \<open>None\<close> where Python raises
  \<^verbatim>\<open>ValueError\<close>.
\<close>

record pylib =
  isoformat :: "int \<Rightarrow> string"
  fromisoformat :: "string \<Rightarrow> datetime option"

text \<open>
  The state the program runs against. \<open>procs\<close> and \<open>clock\<close> are the answers the
  environment will give to the successive calls of \<^verbatim>\<open>subprocess.run\<close> and
  \<^verbatim>\<open>datetime.now()\<close>; \<open>spawned\<close> and \<open>reads\<close> count the calls made so far, and
  \<open>issued\<close> lists the command lines handed to \<^verbatim>\<open>subprocess.run\<close>. Writes to
  \<^verbatim>\<open>logs/actions.log\<close> (by \<^verbatim>\<open>log_action\<close> and by the \<^verbatim>\<open>logging\<close> module) are taken
  to succeed and are not part of the state: none of the functions below reads that file.
\<close>

record world =
  blocklist_file :: store_file
  procs :: "nat \<Rightarrow> process"
  spawned :: nat
  issued :: "string list list"
  clock :: "nat \<Rightarrow> int"
  reads :: nat

definition datetime_now :: "world \<Rightarrow> int \<times> world" where
  "datetime_now w = (clock w (reads w), w\<lparr>reads := Suc (reads w)\<rparr>)"

definition max_ticks :: int where
  "max_ticks = 3652059 * 86400000000 - 1"

definition timedelta_hours :: "int \<Rightarrow> int" where
  "timedelta_hours h = h * 3600000000"

definition datetime_add :: "datetime \<Rightarrow> int \<Rightarrow> datetime option" where
  \<comment> \<open>\<^verbatim>\<open>d + delta\<close>; \<open>None\<close> is \<^verbatim>\<open>OverflowError\<close>\<close>
  "datetime_add d delta =
     (let t = ticks d + delta
      in if t < 0 \<or> max_ticks < t then None else Some (d\<lparr>ticks := t\<rparr>))"

definition naive_gt :: "int \<Rightarrow> datetime \<Rightarrow> bool option" where
  \<comment> \<open>\<^verbatim>\<open>now > d\<close> for a naive \<^verbatim>\<open>now\<close>; \<open>None\<close> is the \<^verbatim>\<open>TypeError\<close> of comparing
      a naive with an aware datetime\<close>
  "naive_gt now d = (case tzinfo d of None \<Rightarrow> Some (ticks d < now) | Some off \<Rightarrow> None)"

section \<open>The enforcement executor\<close>

datatype run_outcome =
  Completed
  | CalledProcessError string
  | TimeoutExpired string
  | OtherException string

definition subprocess_run :: "string list \<Rightarrow> real \<Rightarrow> world \<Rightarrow> run_outcome \<times> world" where
  \<comment> \<open>\<^verbatim>\<open>subprocess.run(args, capture_output=True, text=True, check=True, timeout=t)\<close>\<close>
  "subprocess_run args t w =
     (let p = procs w (spawned w);
          w' = w\<lparr>spawned := Suc (spawned w), issued := issued w @ [args]\<rparr>
      in case start_failure p of
           Some m \<Rightarrow> (OtherException m, w')
         | None \<Rightarrow>
             if t < duration p then (TimeoutExpired (timeout_text p), w')
             else if returncode p \<noteq> 0 then (CalledProcessError (stderr p), w')
             else (Completed, w'))"

definition FIREWALL_CMD :: string where
  "FIREWALL_CMD = ''/sbin/iptables''"

fun str_join :: "string \<Rightarrow> string list \<Rightarrow> string" where
  "str_join sep [] = []"
| "str_join sep [x] = x"
| "str_join sep (x # y # ys) = x @ sep @ str_join sep (y # ys)"

definition execute_firewall_command :: "string list \<Rightarrow> world \<Rightarrow> (bool \<times> string) \<times> world" where
  "execute_firewall_command cmd w =
     (case subprocess_run (''sudo'' # cmd) 10 w of
        (Completed, w') \<Rightarrow> ((True, ''''), w')
      | (CalledProcessError err, w') \<Rightarrow>
          ((False, ''Command failed ('' @ str_join '' '' cmd @ ''): '' @ err), w')
      | (TimeoutExpired m, w') \<Rightarrow> ((False, ''Unexpected error: '' @ m), w')
      | (OtherException m, w') \<Rightarrow> ((False, ''Unexpected error: '' @ m), w'))"

section \<open>The block store\<close>

definition read_json :: "store_file \<Rightarrow> exception + entry list" where
  \<comment> \<open>\<^verbatim>\<open>open(BLOCKLIST_FILE, 'r')\<close> followed by \<^verbatim>\<open>json.load\<close>\<close>
  "read_json f =
     (case f of
        Missing \<Rightarrow> Inl FileNotFoundError
      | Corrupt \<Rightarrow> Inl JSONDecodeError
      | Unreadable \<Rightarrow> Inl OSError
      | Stored es \<Rightarrow> Inr es)"

definition load_blocklist :: "world \<Rightarrow> exception + entry list" where
  "load_blocklist w =
     (case read_json (blocklist_file w) of
        Inr es \<Rightarrow> Inr es
      | Inl FileNotFoundError \<Rightarrow> Inr []
      | Inl JSONDecodeError \<Rightarrow> Inr []
      | Inl e \<Rightarrow> Inl e)"

definition save_blocklist :: "entry list \<Rightarrow> world \<Rightarrow> world" where
  "save_blocklist data w = w\<lparr>blocklist_file := Stored data\<rparr>"

section \<open>The lifecycle manager\<close>

definition log_action :: "pylib \<Rightarrow> string \<Rightarrow> string \<Rightarrow> world \<Rightarrow> world" where
  "log_action lib a act w =
     (case datetime_now w of
        (now, w1) \<Rightarrow>
          (let timestamp = isoformat lib now;
               log_entry = \<lparr>time = timestamp, ip = a, action = act\<rparr>;
               blocklist = (case load_blocklist w1 of Inl e \<Rightarrow> [] | Inr es \<Rightarrow> es)
           in save_blocklist (blocklist @ [log_entry]) w1))"

definition block_ip :: "pylib \<Rightarrow> string \<Rightarrow> world \<Rightarrow> bool \<times> world" where
  "block_ip lib a w =
     (case execute_firewall_command [FIREWALL_CMD, ''-A'', ''INPUT'', ''-s'', a, ''-j'', ''DROP''] w of
        ((success_in, m1), w1) \<Rightarrow>
     (case execute_firewall_command [FIREWALL_CMD, ''-A'', ''OUTPUT'', ''-d'', a, ''-j'', ''DROP''] w1 of
        ((success_out, m2), w2) \<Rightarrow>
          (success_in \<and> success_out,
           if success_in \<or> success_out then log_action lib a ''blocked'' w2 else w2)))"

definition unblock_ip :: "pylib \<Rightarrow> string \<Rightarrow> world \<Rightarrow> bool \<times> world" where
  "unblock_ip lib a w =
     (case execute_firewall_command [FIREWALL_CMD, ''-D'', ''INPUT'', ''-s'', a, ''-j'', ''DROP''] w of
        ((success_in, m1), w1) \<Rightarrow>
     (case execute_firewall_command [FIREWALL_CMD, ''-D'', ''OUTPUT'', ''-d'', a, ''-j'', ''DROP''] w1 of
        ((success_out, m2), w2) \<Rightarrow>
          (success_in \<and> success_out,
           if success_in \<or> success_out then log_action lib a ''unblocked'' w2 else w2)))"

section \<open>The expiry sweep\<close>

text \<open>
  Lines 124 to 127 of \<^verbatim>\<open>check_expired_blocks\<close>: parse the entry's time, add one
  hour, compare with \<^verbatim>\<open>now\<close>. Each of the three steps can raise.
\<close>

definition expired :: "pylib \<Rightarrow> int \<Rightarrow> entry \<Rightarrow> exception + bool" where
  "expired lib now e =
     (case fromisoformat lib (time e) of
        None \<Rightarrow> Inl ValueError
      | Some blocked_time \<Rightarrow>
          (case datetime_add blocked_time (timedelta_hours 1) of
             None \<Rightarrow> Inl OverflowError
           | Some unblock_time \<Rightarrow>
               (case naive_gt now unblock_time of
                  None \<Rightarrow> Inl TypeError
                | Some due \<Rightarrow> Inr due)))"

text \<open>
  The \<^verbatim>\<open>for\<close> loop of \<^verbatim>\<open>check_expired_blocks\<close>, over the entries still to visit. An
  exception leaves the loop at once, with the state as it is then.
\<close>

fun sweep_loop ::
  "pylib \<Rightarrow> int \<Rightarrow> entry list \<Rightarrow> entry list \<Rightarrow> world \<Rightarrow> (exception + entry list) \<times> world"
where
  "sweep_loop lib now [] updated_list w = (Inr updated_list, w)"
| "sweep_loop lib now (e # es) updated_list w =
     (if action e \<noteq> ''blocked'' then sweep_loop lib now es (updated_list @ [e]) w
      else
        case expired lib now e of
          Inl x \<Rightarrow> (Inl x, w)
        | Inr due \<Rightarrow>
            if due then
              (case unblock_ip lib (ip e) w of
                 (ok, w') \<Rightarrow>
                   if ok then sweep_loop lib now es updated_list w'
                   else sweep_loop lib now es (updated_list @ [e]) w')
            else sweep_loop lib now es (updated_list @ [e]) w)"

definition check_expired_blocks :: "pylib \<Rightarrow> world \<Rightarrow> (exception + unit) \<times> world" where
  "check_expired_blocks lib w =
     (case load_blocklist w of
        Inl e \<Rightarrow> (Inl e, w)
      | Inr blocklist \<Rightarrow>
          (case datetime_now w of
             (now, w1) \<Rightarrow>
               (case sweep_loop lib now blocklist [] w1 of
                  (Inl e, w2) \<Rightarrow> (Inl e, w2)
                | (Inr updated_list, w2) \<Rightarrow> (Inr (), save_blocklist updated_list w2))))"

section \<open>Reading the store\<close>

text \<open>
  The events the store holds, as every reader of the program takes them: what
  \<^verbatim>\<open>load_blocklist\<close> returns, and nothing when it raises (\<^verbatim>\<open>log_action\<close> and
  \<^verbatim>\<open>get_blocked_ips_data\<close> both catch the exception and go on with no rows). The
  active blocks (\<^verbatim>\<open>ActiveBlocks\<close> in the specification) are the events among them whose
  action is \<^verbatim>\<open>'blocked'\<close>, the selection \<^verbatim>\<open>df[df['action'] == 'blocked']\<close> of
  \<^verbatim>\<open>visualize_blocked_ips\<close>.
\<close>

definition stored_events :: "world \<Rightarrow> entry list" where
  "stored_events w = (case load_blocklist w of Inl e \<Rightarrow> [] | Inr es \<Rightarrow> es)"

definition active_blocks :: "world \<Rightarrow> entry list" where
  "active_blocks w = filter (\<lambda>e. action e = ''blocked'') (stored_events w)"

text \<open>A child lets \<^verbatim>\<open>execute_firewall_command\<close> report success when it starts, exits
  within the ten seconds and exits with status 0.\<close>

definition succeeds :: "process \<Rightarrow> bool" where
  "succeeds p \<longleftrightarrow> start_failure p = None \<and> duration p \<le> 10 \<and> returncode p = 0"

text \<open>
  The children that the next two calls of \<^verbatim>\<open>subprocess.run\<close> start: in \<^verbatim>\<open>block_ip\<close>
  and \<^verbatim>\<open>unblock_ip\<close>, the command for the inbound rule and the command for the
  outbound rule.
\<close>

definition first_child :: "world \<Rightarrow> process" where
  "first_child w = procs w (spawned w)"

definition second_child :: "world \<Rightarrow> process" where
  "second_child w = procs w (Suc (spawned w))"

text \<open>The events of a list that the sweep does not look at: those whose action is not
  \<^verbatim>\<open>'blocked'\<close>.\<close>

definition other_events :: "entry list \<Rightarrow> entry list" where
  "other_events es = filter (\<lambda>e. action e \<noteq> ''blocked'') es"

section \<open>Concrete inputs\<close>

text \<open>
  Three children: one that exits with status 0 after a second, one that exits with
  status 1 after a second, one that runs for eleven seconds.
\<close>

definition ok_process :: process where
  "ok_process =
     \<lparr>start_failure = None, duration = 1, returncode = 0, stderr = [], timeout_text = []\<rparr>"

definition failed_process :: process where
  "failed_process =
     \<lparr>start_failure = None, duration = 1, returncode = 1,
      stderr = ''iptables: Bad rule'', timeout_text = []\<rparr>"

definition slow_process :: process where
  "slow_process =
     \<lparr>start_failure = None, duration = 11, returncode = 0, stderr = [],
      timeout_text = ''timed out after 10 seconds''\<rparr>"

text \<open>
  2024-01-01T00:00:00 is 738885 days after 0001-01-01. The library below agrees with
  Python on the three instants and the three texts that the examples use.
\<close>

definition T0 :: int where
  "T0 = 738885 * 86400000000"

definition minutes :: "int \<Rightarrow> int" where
  "minutes n = n * 60000000"

definition example_lib :: pylib where
  "example_lib =
     \<lparr>isoformat = (\<lambda>t. if t = T0 then ''2024-01-01T00:00:00''
                       else if t = T0 + minutes 5 then ''2024-01-01T00:05:00''
                       else ''2024-01-01T01:01:00''),
      fromisoformat = (\<lambda>s. if s = ''2024-01-01T00:00:00''
                            then Some \<lparr>ticks = T0, tzinfo = None\<rparr>
                          else if s = ''2024-01-01T00:05:00''
                            then Some \<lparr>ticks = T0 + minutes 5, tzinfo = None\<rparr>
                          else if s = ''2024-01-01T01:01:00''
                            then Some \<lparr>ticks = T0 + minutes 61, tzinfo = None\<rparr>
                          else None)\<rparr>"

definition example_world :: "store_file \<Rightarrow> (nat \<Rightarrow> process) \<Rightarrow> int \<Rightarrow> world" where
  "example_world f ps t =
     \<lparr>blocklist_file = f, procs = ps, spawned = 0, issued = [], clock = (\<lambda>n. t), reads = 0\<rparr>"

definition blocked_at_T0 :: entry where
  "blocked_at_T0 =
     \<lparr>time = ''2024-01-01T00:00:00'', ip = ''198.51.100.7'', action = ''blocked''\<rparr>"

definition unblocked_at_T5 :: entry where
  "unblocked_at_T5 =
     \<lparr>time = ''2024-01-01T00:05:00'', ip = ''198.51.100.7'', action = ''unblocked''\<rparr>"

definition blocked_at_T5 :: entry where
  "blocked_at_T5 =
     \<lparr>time = ''2024-01-01T00:05:00'', ip = ''203.0.113.9'', action = ''blocked''\<rparr>"

text \<open>A store with three events, and the state in which a sweep finds it sixty-one
  minutes after \<open>T0\<close>.\<close>

definition three_events :: "entry list" where
  "three_events = [unblocked_at_T5, blocked_at_T0, blocked_at_T5]"

definition sweep_world :: "(nat \<Rightarrow> process) \<Rightarrow> world" where
  "sweep_world ps = example_world (Stored three_events) ps (T0 + minutes 61)"

section \<open>The executor's result\<close>

lemma execute_firewall_command_world:
  "snd (execute_firewall_command cmd w) =
     w\<lparr>spawned := Suc (spawned w), issued := issued w @ [''sudo'' # cmd]\<rparr>"
  by (simp add: execute_firewall_command_def subprocess_run_def Let_def
      split: option.split run_outcome.split)

lemma execute_firewall_command_success:
  "fst (fst (execute_firewall_command cmd w)) = succeeds (procs w (spawned w))"
  by (auto simp add: execute_firewall_command_def subprocess_run_def Let_def succeeds_def
      split: option.split)


lemma execute_firewall_command_eq:
  "execute_firewall_command cmd w =
     ((succeeds (procs w (spawned w)), snd (fst (execute_firewall_command cmd w))),
      w\<lparr>spawned := Suc (spawned w), issued := issued w @ [''sudo'' # cmd]\<rparr>)"
  using execute_firewall_command_world [of cmd w] execute_firewall_command_success [of cmd w]
  by (metis prod.collapse)

lemma log_action_store:
  "blocklist_file (log_action lib a act w) =
     Stored (stored_events w @ [\<lparr>time = isoformat lib (clock w (reads w)), ip = a, action = act\<rparr>])"
  by (simp add: log_action_def datetime_now_def save_blocklist_def stored_events_def
      load_blocklist_def)

lemma block_ip_eq:
  "block_ip lib a w =
     (succeeds (procs w (spawned w)) \<and> succeeds (procs w (Suc (spawned w))),
      if succeeds (procs w (spawned w)) \<or> succeeds (procs w (Suc (spawned w)))
      then log_action lib a ''blocked''
             (w\<lparr>spawned := Suc (Suc (spawned w)),
                issued := issued w @
                  [[''sudo'', FIREWALL_CMD, ''-A'', ''INPUT'', ''-s'', a, ''-j'', ''DROP''],
                   [''sudo'', FIREWALL_CMD, ''-A'', ''OUTPUT'', ''-d'', a, ''-j'', ''DROP'']]\<rparr>)
      else w\<lparr>spawned := Suc (Suc (spawned w)),
                issued := issued w @
                  [[''sudo'', FIREWALL_CMD, ''-A'', ''INPUT'', ''-s'', a, ''-j'', ''DROP''],
                   [''sudo'', FIREWALL_CMD, ''-A'', ''OUTPUT'', ''-d'', a, ''-j'', ''DROP'']]\<rparr>)"
  unfolding block_ip_def
  apply (subst execute_firewall_command_eq)
  apply (simp only: prod.case)
  apply (subst execute_firewall_command_eq)
  apply (simp only: prod.case)
  apply simp
  done


lemma stored_events_Stored: "blocklist_file w = Stored es \<Longrightarrow> stored_events w = es"
  by (simp add: stored_events_def load_blocklist_def read_json_def)

lemma stored_events_update:
  "stored_events (w\<lparr>spawned := s\<rparr>) = stored_events w"
  "stored_events (w\<lparr>issued := i\<rparr>) = stored_events w"
  "stored_events (w\<lparr>reads := r\<rparr>) = stored_events w"
  by (simp_all add: stored_events_def load_blocklist_def)

lemma unblock_ip_eq:
  "unblock_ip lib a w =
     (succeeds (procs w (spawned w)) \<and> succeeds (procs w (Suc (spawned w))),
      if succeeds (procs w (spawned w)) \<or> succeeds (procs w (Suc (spawned w)))
      then log_action lib a ''unblocked''
             (w\<lparr>spawned := Suc (Suc (spawned w)),
                issued := issued w @
                  [[''sudo'', FIREWALL_CMD, ''-D'', ''INPUT'', ''-s'', a, ''-j'', ''DROP''],
                   [''sudo'', FIREWALL_CMD, ''-D'', ''OUTPUT'', ''-d'', a, ''-j'', ''DROP'']]\<rparr>)
      else w\<lparr>spawned := Suc (Suc (spawned w)),
                issued := issued w @
                  [[''sudo'', FIREWALL_CMD, ''-D'', ''INPUT'', ''-s'', a, ''-j'', ''DROP''],
                   [''sudo'', FIREWALL_CMD, ''-D'', ''OUTPUT'', ''-d'', a, ''-j'', ''DROP'']]\<rparr>)"
  unfolding unblock_ip_def
  apply (subst execute_firewall_command_eq)
  apply (simp only: prod.case)
  apply (subst execute_firewall_command_eq)
  apply (simp only: prod.case)
  apply simp
  done

lemma unblock_ip_store:
  "stored_events (snd (unblock_ip lib a w)) =
     stored_events w @
       (if succeeds (procs w (spawned w)) \<or> succeeds (procs w (Suc (spawned w)))
        then [\<lparr>time = isoformat lib (clock w (reads w)), ip = a, action = ''unblocked''\<rparr>]
        else [])"
  by (simp add: unblock_ip_eq log_action_store stored_events_Stored stored_events_update)

lemma unblock_ip_logged:
  "\<exists>logged. stored_events (snd (unblock_ip lib a w)) = stored_events w @ logged
     \<and> (\<forall>x \<in> set logged. action x = ''unblocked'' \<and> ip x = a)"
  by (simp add: unblock_ip_store)


lemma sweep_loop_other:
  "action e \<noteq> ''blocked'' \<Longrightarrow>
     sweep_loop lib now (e # es) acc w = sweep_loop lib now es (acc @ [e]) w"
  by simp

lemma sweep_loop_raise:
  "action e = ''blocked'' \<Longrightarrow> expired lib now e = Inl x \<Longrightarrow>
     sweep_loop lib now (e # es) acc w = (Inl x, w)"
  by simp

lemma sweep_loop_not_due:
  "action e = ''blocked'' \<Longrightarrow> expired lib now e = Inr False \<Longrightarrow>
     sweep_loop lib now (e # es) acc w = sweep_loop lib now es (acc @ [e]) w"
  by simp

lemma sweep_loop_due:
  "action e = ''blocked'' \<Longrightarrow> expired lib now e = Inr True \<Longrightarrow>
     sweep_loop lib now (e # es) acc w =
       sweep_loop lib now es (if fst (unblock_ip lib (ip e) w) then acc else acc @ [e])
         (snd (unblock_ip lib (ip e) w))"
  by (simp add: case_prod_beta)

lemma sweep_loop_cases:
  obtains (other) "action e \<noteq> ''blocked''"
  | (raise) x where "action e = ''blocked''" "expired lib now e = Inl x"
  | (not_due) "action e = ''blocked''" "expired lib now e = Inr False"
  | (due) "action e = ''blocked''" "expired lib now e = Inr True"
  by (cases "expired lib now e") auto

lemma sweep_loop_append:
  "sweep_loop lib now (xs @ ys) acc w =
     (case sweep_loop lib now xs acc w of
        (Inl x, w') \<Rightarrow> (Inl x, w')
      | (Inr u, w') \<Rightarrow> sweep_loop lib now ys u w')"
proof (induction xs arbitrary: acc w)
  case Nil
  show ?case by simp
next
  case (Cons e xs)
  show ?case
  proof (cases rule: sweep_loop_cases [where e = e and lib = lib and now = now])
    case other
    note step = sweep_loop_other [OF other]
    show ?thesis by (simp only: append_Cons step Cons.IH)
  next
    case (raise x)
    note step = sweep_loop_raise [OF raise]
    show ?thesis by (simp only: append_Cons step prod.case sum.case)
  next
    case not_due
    note step = sweep_loop_not_due [OF not_due]
    show ?thesis by (simp only: append_Cons step Cons.IH)
  next
    case due
    note step = sweep_loop_due [OF due]
    show ?thesis by (simp only: append_Cons step Cons.IH)
  qed
qed

lemma sweep_loop_kept:
  "sweep_loop lib now es acc w = (Inr u, w') \<Longrightarrow>
     \<exists>k. u = acc @ k \<and> subseq k es \<and> other_events k = other_events es"
proof (induction es arbitrary: acc w)
  case Nil
  then show ?case by (simp add: other_events_def)
next
  case (Cons e es)
  have keep: "\<exists>k. u = acc @ k \<and> subseq k (e # es) \<and> other_events k = other_events (e # es)"
    if "sweep_loop lib now es (acc @ [e]) w1 = (Inr u, w')" for w1
  proof -
    from Cons.IH [OF that] obtain k where
      "u = (acc @ [e]) @ k" "subseq k es" "other_events k = other_events es"
      by blast
    then have "u = acc @ (e # k) \<and> subseq (e # k) (e # es)
        \<and> other_events (e # k) = other_events (e # es)"
      by (simp add: other_events_def)
    then show ?thesis by blast
  qed
  have drop: "\<exists>k. u = acc @ k \<and> subseq k (e # es) \<and> other_events k = other_events (e # es)"
    if "sweep_loop lib now es acc w1 = (Inr u, w')" and "action e = ''blocked''" for w1
  proof -
    from Cons.IH [OF that(1)] obtain k where
      "u = acc @ k" "subseq k es" "other_events k = other_events es"
      by blast
    with that(2) have "u = acc @ k \<and> subseq k (e # es)
        \<and> other_events k = other_events (e # es)"
      by (simp add: other_events_def list_emb_Cons)
    then show ?thesis by blast
  qed
  show ?case
  proof (cases rule: sweep_loop_cases [where e = e and lib = lib and now = now])
    case other
    from Cons.prems show ?thesis
      by (intro keep [of w]) (simp only: sweep_loop_other [OF other])
  next
    case (raise x)
    from Cons.prems show ?thesis by (simp only: sweep_loop_raise [OF raise]) simp
  next
    case not_due
    from Cons.prems show ?thesis
      by (intro keep [of w]) (simp only: sweep_loop_not_due [OF not_due])
  next
    case due
    from Cons.prems have run: "sweep_loop lib now es
        (if fst (unblock_ip lib (ip e) w) then acc else acc @ [e])
        (snd (unblock_ip lib (ip e) w)) = (Inr u, w')"
      by (simp only: sweep_loop_due [OF due])
    show ?thesis
    proof (cases "fst (unblock_ip lib (ip e) w)")
      case True
      with run due show ?thesis by (intro drop [of "snd (unblock_ip lib (ip e) w)"]) simp_all
    next
      case False
      with run show ?thesis by (intro keep [of "snd (unblock_ip lib (ip e) w)"]) simp
    qed
  qed
qed

lemma sweep_loop_logged:
  "sweep_loop lib now es acc w = (r, w') \<Longrightarrow>
     \<exists>logged. stored_events w' = stored_events w @ logged
       \<and> (\<forall>x \<in> set logged. action x = ''unblocked'')"
proof (induction es arbitrary: acc w)
  case Nil
  then show ?case by simp
next
  case (Cons e es)
  show ?case
  proof (cases rule: sweep_loop_cases [where e = e and lib = lib and now = now])
    case other
    from Cons.prems have "sweep_loop lib now es (acc @ [e]) w = (r, w')"
      by (simp only: sweep_loop_other [OF other])
    from Cons.IH [OF this] show ?thesis .
  next
    case (raise x)
    from Cons.prems have "w' = w" by (simp only: sweep_loop_raise [OF raise]) simp
    then show ?thesis by simp
  next
    case not_due
    from Cons.prems have "sweep_loop lib now es (acc @ [e]) w = (r, w')"
      by (simp only: sweep_loop_not_due [OF not_due])
    from Cons.IH [OF this] show ?thesis .
  next
    case due
    from Cons.prems have "sweep_loop lib now es
        (if fst (unblock_ip lib (ip e) w) then acc else acc @ [e])
        (snd (unblock_ip lib (ip e) w)) = (r, w')"
      by (simp only: sweep_loop_due [OF due])
    from Cons.IH [OF this] obtain l2 where
      l2: "stored_events w' = stored_events (snd (unblock_ip lib (ip e) w)) @ l2"
          "\<forall>x \<in> set l2. action x = ''unblocked''"
      by blast
    obtain l1 where
      l1: "stored_events (snd (unblock_ip lib (ip e) w)) = stored_events w @ l1"
          "\<forall>x \<in> set l1. action x = ''unblocked'' \<and> ip x = ip e"
      using unblock_ip_logged by blast
    from l1 l2 have "stored_events w' = stored_events w @ (l1 @ l2)
        \<and> (\<forall>x \<in> set (l1 @ l2). action x = ''unblocked'')"
      by auto
    then show ?thesis by blast
  qed
qed


section \<open>Blocking an address\<close>

lemma block_ip_flag:
  "fst (block_ip lib a w) = (succeeds (first_child w) \<and> succeeds (second_child w))"
  by (simp add: block_ip_eq first_child_def second_child_def)

lemma block_ip_store:
  "blocklist_file (snd (block_ip lib a w)) =
     (if succeeds (first_child w) \<or> succeeds (second_child w)
      then Stored (stored_events w @
             [\<lparr>time = isoformat lib (clock w (reads w)), ip = a, action = ''blocked''\<rparr>])
      else blocklist_file w)"
  by (simp add: block_ip_eq first_child_def second_child_def log_action_store
      stored_events_update)

lemma example_world_children:
  "first_child (example_world f ps t) = ps 0"
  "second_child (example_world f ps t) = ps (Suc 0)"
  by (simp_all add: first_child_def second_child_def example_world_def)

lemma example_processes:
  "succeeds ok_process" "\<not> succeeds failed_process" "\<not> succeeds slow_process"
  by (simp_all add: succeeds_def ok_process_def failed_process_def slow_process_def)

lemma example_world_store:
  "blocklist_file (example_world f ps t) = f"
  "clock (example_world f ps t) n = t"
  "reads (example_world f ps t) = 0"
  by (simp_all add: example_world_def)

text \<open>
  C1. Whatever the two children do, \<^verbatim>\<open>block_ip\<close> returns true exactly when both
  commands succeeded, and when at least one of them succeeded the store afterwards holds
  the events it held before followed by one new event for the address, with action
  \<^verbatim>\<open>'blocked'\<close>. So one success and one failure record the event and return false.
\<close>

theorem block_ip_records_partial_success:
  "fst (block_ip lib a w) = (succeeds (first_child w) \<and> succeeds (second_child w))
   \<and> (succeeds (first_child w) \<or> succeeds (second_child w) \<longrightarrow>
        blocklist_file (snd (block_ip lib a w)) =
          Stored (stored_events w @
            [\<lparr>time = isoformat lib (clock w (reads w)), ip = a, action = ''blocked''\<rparr>]))"
  by (simp add: block_ip_flag block_ip_store)

theorem block_ip_records_partial_success_witness:
  "succeeds ok_process \<and> \<not> succeeds failed_process
   \<and> fst (block_ip example_lib ''198.51.100.7''
        (example_world (Stored []) (\<lambda>n. if n = 0 then ok_process else failed_process) T0))
       = False
   \<and> blocklist_file (snd (block_ip example_lib ''198.51.100.7''
        (example_world (Stored []) (\<lambda>n. if n = 0 then ok_process else failed_process) T0)))
       = Stored [blocked_at_T0]"
  using block_ip_records_partial_success [of example_lib "''198.51.100.7''"
      "example_world (Stored []) (\<lambda>n. if n = 0 then ok_process else failed_process) T0"]
  by (simp add: example_world_children example_processes example_world_store
      stored_events_Stored example_lib_def blocked_at_T0_def)

lemma slow_process_duration: "10 < duration slow_process"
  by (simp add: slow_process_def)

text \<open>
  C5. When neither command succeeds, \<^verbatim>\<open>block_ip\<close> returns false and the block list
  file is what it was before the call. A child that runs for more than ten seconds is
  one way for a command not to succeed.
\<close>

theorem block_ip_both_fail_no_event:
  assumes "\<not> succeeds (first_child w)" and "\<not> succeeds (second_child w)"
  shows "fst (block_ip lib a w) = False
    \<and> blocklist_file (snd (block_ip lib a w)) = blocklist_file w
    \<and> stored_events (snd (block_ip lib a w)) = stored_events w"
proof -
  from assms have flag: "fst (block_ip lib a w) = False"
    by (simp add: block_ip_flag)
  from assms have store: "blocklist_file (snd (block_ip lib a w)) = blocklist_file w"
    by (simp add: block_ip_store)
  from store have "stored_events (snd (block_ip lib a w)) = stored_events w"
    by (simp add: stored_events_def load_blocklist_def)
  with flag store show ?thesis by simp
qed

theorem block_ip_both_fail_no_event_witness:
  "10 < duration slow_process
   \<and> \<not> succeeds (first_child (example_world (Stored [blocked_at_T0]) (\<lambda>n. slow_process) T0))
   \<and> \<not> succeeds (second_child (example_world (Stored [blocked_at_T0]) (\<lambda>n. slow_process) T0))
   \<and> fst (block_ip example_lib ''203.0.113.9''
        (example_world (Stored [blocked_at_T0]) (\<lambda>n. slow_process) T0)) = False
   \<and> blocklist_file (snd (block_ip example_lib ''203.0.113.9''
        (example_world (Stored [blocked_at_T0]) (\<lambda>n. slow_process) T0)))
       = Stored [blocked_at_T0]"
  using block_ip_both_fail_no_event [of
      "example_world (Stored [blocked_at_T0]) (\<lambda>n. slow_process) T0"
      example_lib "''203.0.113.9''"]
  by (simp add: example_world_children example_processes example_world_store
      slow_process_duration)

section \<open>Loading a missing or corrupt store\<close>



lemma unreadable_store_raises:
  "blocklist_file w = Unreadable \<Longrightarrow> load_blocklist w = Inl OSError"
  by (simp add: load_blocklist_def read_json_def)

section \<open>Unblocking by hand\<close>

lemma unblock_ip_flag:
  "fst (unblock_ip lib a w) = (succeeds (first_child w) \<and> succeeds (second_child w))"
  by (simp add: unblock_ip_eq first_child_def second_child_def)

lemma unblock_ip_file:
  "blocklist_file (snd (unblock_ip lib a w)) =
     (if succeeds (first_child w) \<or> succeeds (second_child w)
      then Stored (stored_events w @
             [\<lparr>time = isoformat lib (clock w (reads w)), ip = a, action = ''unblocked''\<rparr>])
      else blocklist_file w)"
  by (simp add: unblock_ip_eq first_child_def second_child_def log_action_store
      stored_events_update)

text \<open>
  C6. The store holds a \<^verbatim>\<open>'blocked'\<close> event for an address. \<^verbatim>\<open>unblock_ip\<close> on that
  address, when at least one of its commands succeeds, leaves the store with the events
  it held followed by one new \<^verbatim>\<open>'unblocked'\<close> event; whatever the commands do, the
  earlier event is still in the store after the call, and still among the active blocks.
\<close>

theorem manual_unblock_keeps_blocked_event:
  assumes "blocklist_file w = Stored es" and "b \<in> set es"
    and "action b = ''blocked''" and "ip b = a"
  shows "(succeeds (first_child w) \<or> succeeds (second_child w) \<longrightarrow>
           blocklist_file (snd (unblock_ip lib a w)) =
             Stored (es @
               [\<lparr>time = isoformat lib (clock w (reads w)), ip = a, action = ''unblocked''\<rparr>]))
    \<and> b \<in> set (stored_events (snd (unblock_ip lib a w)))
    \<and> b \<in> set (active_blocks (snd (unblock_ip lib a w)))"
proof -
  from assms(1) have before: "stored_events w = es"
    by (rule stored_events_Stored)
  have after: "stored_events (snd (unblock_ip lib a w)) =
      es @ (if succeeds (first_child w) \<or> succeeds (second_child w)
            then [\<lparr>time = isoformat lib (clock w (reads w)), ip = a, action = ''unblocked''\<rparr>]
            else [])"
    using before by (simp add: unblock_ip_store first_child_def second_child_def)
  from after assms(2) have kept: "b \<in> set (stored_events (snd (unblock_ip lib a w)))"
    by simp
  with assms(3) have "b \<in> set (active_blocks (snd (unblock_ip lib a w)))"
    by (simp add: active_blocks_def)
  with kept before show ?thesis
    by (simp add: unblock_ip_file)
qed

theorem manual_unblock_keeps_blocked_event_witness:
  "blocked_at_T0 \<in> set [blocked_at_T0]
   \<and> action blocked_at_T0 = ''blocked'' \<and> ip blocked_at_T0 = ''198.51.100.7''
   \<and> blocklist_file (snd (unblock_ip example_lib ''198.51.100.7''
        (example_world (Stored [blocked_at_T0]) (\<lambda>n. ok_process) (T0 + minutes 5))))
       = Stored [blocked_at_T0,
           \<lparr>time = ''2024-01-01T00:05:00'', ip = ''198.51.100.7'', action = ''unblocked''\<rparr>]
   \<and> blocked_at_T0 \<in> set (active_blocks (snd (unblock_ip example_lib ''198.51.100.7''
        (example_world (Stored [blocked_at_T0]) (\<lambda>n. ok_process) (T0 + minutes 5)))))"
  using manual_unblock_keeps_blocked_event [of
      "example_world (Stored [blocked_at_T0]) (\<lambda>n. ok_process) (T0 + minutes 5)"
      "[blocked_at_T0]" blocked_at_T0 "''198.51.100.7''" example_lib]
  by (simp add: example_world_children example_processes example_world_store
      example_lib_def blocked_at_T0_def T0_def minutes_def)

section \<open>The ten-second wait\<close>



lemma command_failure_message:
  assumes "start_failure (first_child w) = None" and "duration (first_child w) \<le> 10"
    and "returncode (first_child w) \<noteq> 0"
  shows "fst (execute_firewall_command cmd w) =
    (False, ''Command failed ('' @ str_join '' '' cmd @ ''): '' @ stderr (first_child w))"
  using assms
  by (simp add: execute_firewall_command_def subprocess_run_def first_child_def Let_def)

lemma start_failure_message:
  assumes "start_failure (first_child w) = Some m"
  shows "fst (execute_firewall_command cmd w) = (False, ''Unexpected error: '' @ m)"
  using assms
  by (simp add: execute_firewall_command_def subprocess_run_def first_child_def Let_def)

section \<open>Writing back what was loaded\<close>

text \<open>
  C8. Writing back with \<^verbatim>\<open>save_blocklist\<close> the list that \<^verbatim>\<open>load_blocklist\<close> returned
  leaves the stored events as they were: loading again returns the same list. When
  the file held a JSON array the whole state is unchanged; when it was missing or
  corrupt, it now holds the empty array.
\<close>

theorem rewrite_of_load_is_noop:
  assumes "load_blocklist w = Inr es"
  shows "load_blocklist (save_blocklist es w) = Inr es
    \<and> stored_events (save_blocklist es w) = stored_events w
    \<and> (\<forall>xs. blocklist_file w = Stored xs \<longrightarrow> save_blocklist es w = w)"
proof -
  have again: "load_blocklist (save_blocklist es w) = Inr es"
    by (simp add: load_blocklist_def save_blocklist_def read_json_def)
  with assms have events: "stored_events (save_blocklist es w) = stored_events w"
    by (simp add: stored_events_def)
  have "save_blocklist es w = w" if "blocklist_file w = Stored xs" for xs
  proof -
    from that assms have "xs = es"
      by (simp add: load_blocklist_def read_json_def)
    with that show ?thesis
      by (simp add: save_blocklist_def)
  qed
  with again events show ?thesis by blast
qed

theorem rewrite_of_load_is_noop_witness:
  "load_blocklist (example_world (Stored three_events) (\<lambda>n. ok_process) T0) = Inr three_events
   \<and> save_blocklist three_events (example_world (Stored three_events) (\<lambda>n. ok_process) T0)
       = example_world (Stored three_events) (\<lambda>n. ok_process) T0
   \<and> load_blocklist (example_world Corrupt (\<lambda>n. ok_process) T0) = Inr []
   \<and> load_blocklist (save_blocklist [] (example_world Corrupt (\<lambda>n. ok_process) T0)) = Inr []"
  using rewrite_of_load_is_noop [of
      "example_world (Stored three_events) (\<lambda>n. ok_process) T0" three_events]
    rewrite_of_load_is_noop [of "example_world Corrupt (\<lambda>n. ok_process) T0" "[]"]
  by (simp add: example_world_store load_blocklist_def read_json_def)

section \<open>One sweep\<close>

lemma subseq_member: "subseq xs ys \<Longrightarrow> x \<in> set xs \<Longrightarrow> x \<in> set ys"
  by (auto elim: list_emb_set)

lemma expired_naive:
  assumes "fromisoformat lib (time e) = Some ts" and "tzinfo ts = None"
    and "expired lib now e = Inr d"
  shows "d = (ticks ts + timedelta_hours 1 < now)"
  using assms
  by (auto simp add: expired_def datetime_add_def naive_gt_def Let_def
      split: if_splits option.splits)

lemma stored_events_at_start:
  "load_blocklist w = Inr snapshot \<Longrightarrow> stored_events (snd (datetime_now w)) = snapshot"
  by (simp add: datetime_now_def stored_events_update) (simp add: stored_events_def)

lemma check_expired_blocks_run:
  assumes "load_blocklist w = Inr snapshot"
  shows "check_expired_blocks lib w =
     (case sweep_loop lib (fst (datetime_now w)) snapshot [] (snd (datetime_now w)) of
        (Inl x, w2) \<Rightarrow> (Inl x, w2)
      | (Inr u, w2) \<Rightarrow> (Inr (), save_blocklist u w2))"
  using assms by (simp add: check_expired_blocks_def split: prod.split)

lemma sweep_completed:
  assumes "load_blocklist w = Inr snapshot" and "check_expired_blocks lib w = (Inr (), w')"
  obtains u w2 where
    "sweep_loop lib (fst (datetime_now w)) snapshot [] (snd (datetime_now w)) = (Inr u, w2)"
    and "w' = save_blocklist u w2"
  using assms(2) unfolding check_expired_blocks_run [OF assms(1)]
  by (auto split: prod.splits sum.splits)

lemma sweep_aborted:
  assumes "load_blocklist w = Inr snapshot" and "check_expired_blocks lib w = (Inl x, w')"
  shows "sweep_loop lib (fst (datetime_now w)) snapshot [] (snd (datetime_now w)) = (Inl x, w')"
  using assms(2) unfolding check_expired_blocks_run [OF assms(1)]
  by (auto split: prod.splits sum.splits)

lemma sweep_aborted_store:
  assumes "load_blocklist w = Inr snapshot" and "check_expired_blocks lib w = (Inl x, w')"
  shows "\<exists>logged. stored_events w' = snapshot @ logged"
proof -
  from sweep_loop_logged [OF sweep_aborted [OF assms]] obtain logged where
    "stored_events w' = stored_events (snd (datetime_now w)) @ logged"
    by blast
  with stored_events_at_start [OF assms(1)] show ?thesis by simp
qed

lemma sweep_at_entry:
  assumes before: "sweep_loop lib now pre [] w0 = (Inr kept, w1)"
    and whole: "sweep_loop lib now (pre @ e # post) [] w0 = (Inr u, w2)"
    and blocked: "action e = ''blocked''"
  obtains d rest where "expired lib now e = Inr d"
    and "subseq kept pre" and "subseq rest post"
    and "u = (if d \<and> fst (unblock_ip lib (ip e) w1) then kept else kept @ [e]) @ rest"
proof -
  from before whole have tail: "sweep_loop lib now (e # post) kept w1 = (Inr u, w2)"
    by (simp add: sweep_loop_append)
  from sweep_loop_kept [OF before] have kept: "subseq kept pre"
    by auto
  show thesis
  proof (cases "expired lib now e")
    case (Inl x)
    from tail show ?thesis
      by (simp only: sweep_loop_raise [OF blocked Inl]) simp
  next
    case (Inr d)
    show ?thesis
    proof (cases d)
      case True
      with Inr have due: "expired lib now e = Inr True" by simp
      from tail have "sweep_loop lib now post
          (if fst (unblock_ip lib (ip e) w1) then kept else kept @ [e])
          (snd (unblock_ip lib (ip e) w1)) = (Inr u, w2)"
        by (simp only: sweep_loop_due [OF blocked due])
      from sweep_loop_kept [OF this] obtain rest where
        "u = (if fst (unblock_ip lib (ip e) w1) then kept else kept @ [e]) @ rest"
        and "subseq rest post"
        by blast
      with True Inr kept show ?thesis by (intro that [of d rest]) simp_all
    next
      case False
      with Inr have not_due: "expired lib now e = Inr False" by simp
      from tail have "sweep_loop lib now post (kept @ [e]) w1 = (Inr u, w2)"
        by (simp only: sweep_loop_not_due [OF blocked not_due])
      from sweep_loop_kept [OF this] obtain rest where
        "u = (kept @ [e]) @ rest" and "subseq rest post"
        by blast
      with False Inr kept show ?thesis by (intro that [of d rest]) simp_all
    qed
  qed
qed

lemma save_blocklist_file: "blocklist_file (save_blocklist u w) = Stored u"
  by (simp add: save_blocklist_def)

text \<open>
  C2. A sweep loads the events \<open>pre @ e # post\<close>, where \<open>e\<close> is a \<^verbatim>\<open>'blocked'\<close> event
  whose time parses to a naive instant more than one hour before the sweep's \<^verbatim>\<open>now\<close>.
  The loop has gone through \<open>pre\<close>, keeping \<open>kept\<close>, and the \<^verbatim>\<open>unblock_ip\<close> it then
  calls for \<open>e\<close> returns true. If the sweep returns, the file holds \<open>kept\<close> followed by
  events kept from \<open>post\<close>: the event at the place of \<open>e\<close> is gone, and \<open>e\<close> is not in
  the store at all unless the list held a second copy of it.
\<close>

theorem sweep_prunes_expired_block:
  assumes load: "load_blocklist w = Inr (pre @ e # post)"
    and blocked: "action e = ''blocked''"
    and parsed: "fromisoformat lib (time e) = Some ts" and naive: "tzinfo ts = None"
    and due: "ticks ts + timedelta_hours 1 < fst (datetime_now w)"
    and before:
      "sweep_loop lib (fst (datetime_now w)) pre [] (snd (datetime_now w)) = (Inr kept, w1)"
    and reversal: "fst (unblock_ip lib (ip e) w1)"
    and completes: "check_expired_blocks lib w = (Inr (), w')"
  shows "(\<exists>rest. blocklist_file w' = Stored (kept @ rest)
            \<and> subseq kept pre \<and> subseq rest post)
    \<and> (e \<notin> set pre \<and> e \<notin> set post \<longrightarrow> e \<notin> set (stored_events w'))"
proof -
  from sweep_completed [OF load completes] obtain u w2 where
    whole: "sweep_loop lib (fst (datetime_now w)) (pre @ e # post) []
              (snd (datetime_now w)) = (Inr u, w2)"
    and w': "w' = save_blocklist u w2"
    by blast
  from sweep_at_entry [OF before whole blocked] obtain d rest where
    d: "expired lib (fst (datetime_now w)) e = Inr d"
    and kept: "subseq kept pre" and rest: "subseq rest post"
    and u: "u = (if d \<and> fst (unblock_ip lib (ip e) w1) then kept else kept @ [e]) @ rest"
    by blast
  from expired_naive [OF parsed naive d] due have "d" by simp
  with u reversal have "u = kept @ rest" by simp
  with w' have stored: "blocklist_file w' = Stored (kept @ rest)"
    by (simp add: save_blocklist_file)
  then have events: "stored_events w' = kept @ rest"
    by (rule stored_events_Stored)
  have "e \<notin> set (stored_events w')" if "e \<notin> set pre" and "e \<notin> set post"
    using that events kept rest by (auto dest: subseq_member)
  with stored kept rest show ?thesis by blast
qed


subsection \<open>The sweep of the three events\<close>

lemma example_entries:
  "action unblocked_at_T5 \<noteq> ''blocked''"
  "action blocked_at_T0 = ''blocked''" "ip blocked_at_T0 = ''198.51.100.7''"
  "action blocked_at_T5 = ''blocked''"
  "blocked_at_T0 \<noteq> unblocked_at_T5" "blocked_at_T0 \<noteq> blocked_at_T5"
  by (simp_all add: unblocked_at_T5_def blocked_at_T0_def blocked_at_T5_def)

lemma example_parse:
  "fromisoformat example_lib (time blocked_at_T0) = Some \<lparr>ticks = T0, tzinfo = None\<rparr>"
  by (simp add: example_lib_def blocked_at_T0_def)

lemma example_expired:
  "expired example_lib (T0 + minutes 61) blocked_at_T0 = Inr True"
  "expired example_lib (T0 + minutes 61) blocked_at_T5 = Inr False"
  by (simp_all add: expired_def example_lib_def blocked_at_T0_def blocked_at_T5_def
      datetime_add_def timedelta_hours_def max_ticks_def naive_gt_def T0_def minutes_def)

lemma example_sweep_loop:
  "sweep_loop example_lib (T0 + minutes 61) three_events [] w0 =
     (Inr (if fst (unblock_ip example_lib ''198.51.100.7'' w0)
           then [unblocked_at_T5, blocked_at_T5] else three_events),
      snd (unblock_ip example_lib ''198.51.100.7'' w0))"
  by (simp add: three_events_def example_entries example_expired case_prod_beta)

lemma sweep_world_start:
  "load_blocklist (sweep_world ps) = Inr three_events"
  "fst (datetime_now (sweep_world ps)) = T0 + minutes 61"
  "first_child (snd (datetime_now (sweep_world ps))) = ps 0"
  "second_child (snd (datetime_now (sweep_world ps))) = ps (Suc 0)"
  "stored_events (snd (datetime_now (sweep_world ps))) = three_events"
  "clock (snd (datetime_now (sweep_world ps))) n = T0 + minutes 61"
  by (simp_all add: sweep_world_def example_world_def datetime_now_def load_blocklist_def
      read_json_def first_child_def second_child_def stored_events_def)

lemma example_sweep:
  "fst (check_expired_blocks example_lib (sweep_world ps)) = Inr ()"
  "blocklist_file (snd (check_expired_blocks example_lib (sweep_world ps))) =
     Stored (if succeeds (ps 0) \<and> succeeds (ps (Suc 0))
             then [unblocked_at_T5, blocked_at_T5] else three_events)"
  by (simp_all add: check_expired_blocks_run [OF sweep_world_start(1)] sweep_world_start
      example_sweep_loop unblock_ip_flag save_blocklist_file)

theorem sweep_prunes_expired_block_witness:
  "load_blocklist (sweep_world (\<lambda>n. ok_process))
     = Inr ([unblocked_at_T5] @ blocked_at_T0 # [blocked_at_T5])
   \<and> action blocked_at_T0 = ''blocked''
   \<and> fromisoformat example_lib (time blocked_at_T0) = Some \<lparr>ticks = T0, tzinfo = None\<rparr>
   \<and> T0 + timedelta_hours 1 < fst (datetime_now (sweep_world (\<lambda>n. ok_process)))
   \<and> fst (unblock_ip example_lib (ip blocked_at_T0)
        (snd (datetime_now (sweep_world (\<lambda>n. ok_process)))))
   \<and> fst (check_expired_blocks example_lib (sweep_world (\<lambda>n. ok_process))) = Inr ()
   \<and> blocklist_file (snd (check_expired_blocks example_lib (sweep_world (\<lambda>n. ok_process))))
       = Stored [unblocked_at_T5, blocked_at_T5]
   \<and> blocked_at_T0 \<notin> set (stored_events
        (snd (check_expired_blocks example_lib (sweep_world (\<lambda>n. ok_process)))))"
proof -
  let ?w = "sweep_world (\<lambda>n. ok_process)"
  let ?w' = "snd (check_expired_blocks example_lib ?w)"
  have load: "load_blocklist ?w = Inr ([unblocked_at_T5] @ blocked_at_T0 # [blocked_at_T5])"
    by (simp add: sweep_world_start three_events_def)
  have naive: "tzinfo \<lparr>ticks = T0, tzinfo = None\<rparr> = None"
    by simp
  have due: "ticks \<lparr>ticks = T0, tzinfo = None\<rparr> + timedelta_hours 1 < fst (datetime_now ?w)"
    by (simp add: sweep_world_start timedelta_hours_def minutes_def)
  have before: "sweep_loop example_lib (fst (datetime_now ?w)) [unblocked_at_T5] []
      (snd (datetime_now ?w)) = (Inr [unblocked_at_T5], snd (datetime_now ?w))"
    by (simp add: example_entries)
  have reversal: "fst (unblock_ip example_lib (ip blocked_at_T0) (snd (datetime_now ?w)))"
    by (simp add: unblock_ip_flag sweep_world_start example_processes)
  have completes: "check_expired_blocks example_lib ?w = (Inr (), ?w')"
    using example_sweep(1) [of "\<lambda>n. ok_process"] by (simp add: prod_eq_iff)
  note pruned = sweep_prunes_expired_block
    [OF load example_entries(2) example_parse naive due before reversal completes]
  have stored: "blocklist_file ?w' = Stored [unblocked_at_T5, blocked_at_T5]"
    by (simp add: example_sweep example_processes)
  from pruned have "blocked_at_T0 \<notin> set (stored_events ?w')"
    by (simp add: example_entries)
  with load due reversal stored example_sweep(1) [of "\<lambda>n. ok_process"]
  show ?thesis
    by (simp add: example_entries example_parse)
qed

lemma sweep_result_cases:
  obtains (returned) "r = Inr ()" | (raised) x where "r = Inl x"
  by (cases r) auto

text \<open>
  C3. As in C2, but the \<^verbatim>\<open>unblock_ip\<close> that the sweep calls for \<open>e\<close> returns false.
  If the sweep returns, the file holds \<open>kept\<close>, then \<open>e\<close>, then events kept from
  \<open>post\<close>; if it raises later on, the file is not rewritten and holds the loaded
  events followed by whatever was recorded meanwhile. Either way \<open>e\<close> is in the list
  that the next sweep loads.
\<close>

theorem failed_reversal_keeps_block:
  assumes load: "load_blocklist w = Inr (pre @ e # post)"
    and blocked: "action e = ''blocked''"
    and parsed: "fromisoformat lib (time e) = Some ts" and naive: "tzinfo ts = None"
    and due: "ticks ts + timedelta_hours 1 < fst (datetime_now w)"
    and before:
      "sweep_loop lib (fst (datetime_now w)) pre [] (snd (datetime_now w)) = (Inr kept, w1)"
    and reversal: "\<not> fst (unblock_ip lib (ip e) w1)"
    and result: "check_expired_blocks lib w = (r, w')"
  shows "(r = Inr () \<longrightarrow>
           (\<exists>rest. blocklist_file w' = Stored (kept @ e # rest)
              \<and> subseq kept pre \<and> subseq rest post))
    \<and> (\<forall>x. r = Inl x \<longrightarrow> (\<exists>logged. stored_events w' = (pre @ e # post) @ logged))
    \<and> e \<in> set (stored_events w')"
proof (cases r rule: sweep_result_cases)
  case returned
  with result have completes: "check_expired_blocks lib w = (Inr (), w')" by simp
  from sweep_completed [OF load completes] obtain u w2 where
    whole: "sweep_loop lib (fst (datetime_now w)) (pre @ e # post) []
              (snd (datetime_now w)) = (Inr u, w2)"
    and w': "w' = save_blocklist u w2"
    by blast
  from sweep_at_entry [OF before whole blocked] obtain d rest where
    kept: "subseq kept pre" and rest: "subseq rest post"
    and u: "u = (if d \<and> fst (unblock_ip lib (ip e) w1) then kept else kept @ [e]) @ rest"
    by blast
  from u reversal have "u = kept @ e # rest" by simp
  with w' have stored: "blocklist_file w' = Stored (kept @ e # rest)"
    by (simp add: save_blocklist_file)
  then have "e \<in> set (stored_events w')"
    by (simp add: stored_events_Stored)
  with stored kept rest returned show ?thesis by blast
next
  case (raised x)
  with result have "check_expired_blocks lib w = (Inl x, w')" by simp
  from sweep_aborted_store [OF load this] obtain logged where
    "stored_events w' = (pre @ e # post) @ logged"
    by blast
  with raised show ?thesis by auto
qed

theorem failed_reversal_keeps_block_witness:
  "load_blocklist (sweep_world (\<lambda>n. failed_process))
     = Inr ([unblocked_at_T5] @ blocked_at_T0 # [blocked_at_T5])
   \<and> action blocked_at_T0 = ''blocked''
   \<and> fromisoformat example_lib (time blocked_at_T0) = Some \<lparr>ticks = T0, tzinfo = None\<rparr>
   \<and> T0 + timedelta_hours 1 < fst (datetime_now (sweep_world (\<lambda>n. failed_process)))
   \<and> \<not> fst (unblock_ip example_lib (ip blocked_at_T0)
        (snd (datetime_now (sweep_world (\<lambda>n. failed_process)))))
   \<and> fst (check_expired_blocks example_lib (sweep_world (\<lambda>n. failed_process))) = Inr ()
   \<and> blocklist_file (snd (check_expired_blocks example_lib (sweep_world (\<lambda>n. failed_process))))
       = Stored [unblocked_at_T5, blocked_at_T0, blocked_at_T5]
   \<and> blocked_at_T0 \<in> set (stored_events
        (snd (check_expired_blocks example_lib (sweep_world (\<lambda>n. failed_process)))))"
proof -
  let ?w = "sweep_world (\<lambda>n. failed_process)"
  let ?w' = "snd (check_expired_blocks example_lib ?w)"
  have load: "load_blocklist ?w = Inr ([unblocked_at_T5] @ blocked_at_T0 # [blocked_at_T5])"
    by (simp add: sweep_world_start three_events_def)
  have naive: "tzinfo \<lparr>ticks = T0, tzinfo = None\<rparr> = None"
    by simp
  have due: "ticks \<lparr>ticks = T0, tzinfo = None\<rparr> + timedelta_hours 1 < fst (datetime_now ?w)"
    by (simp add: sweep_world_start timedelta_hours_def minutes_def)
  have before: "sweep_loop example_lib (fst (datetime_now ?w)) [unblocked_at_T5] []
      (snd (datetime_now ?w)) = (Inr [unblocked_at_T5], snd (datetime_now ?w))"
    by (simp add: example_entries)
  have reversal: "\<not> fst (unblock_ip example_lib (ip blocked_at_T0) (snd (datetime_now ?w)))"
    by (simp add: unblock_ip_flag sweep_world_start example_processes)
  have result: "check_expired_blocks example_lib ?w =
      (fst (check_expired_blocks example_lib ?w), ?w')"
    by simp
  note retained = failed_reversal_keeps_block
    [OF load example_entries(2) example_parse naive due before reversal result]
  have stored: "blocklist_file ?w' = Stored [unblocked_at_T5, blocked_at_T0, blocked_at_T5]"
    by (simp add: example_sweep example_processes three_events_def)
  from retained have "blocked_at_T0 \<in> set (stored_events ?w')"
    by simp
  with load due reversal stored example_sweep(1) [of "\<lambda>n. failed_process"]
  show ?thesis
    by (simp add: example_entries example_parse)
qed

lemma check_expired_blocks_load_raises:
  "load_blocklist w = Inl x \<Longrightarrow> check_expired_blocks lib w = (Inl x, w)"
  by (simp add: check_expired_blocks_def)

lemma stored_events_load: "load_blocklist w = Inr snapshot \<Longrightarrow> stored_events w = snapshot"
  by (simp add: stored_events_def)

text \<open>
  C7. Whatever the store holds and whatever the sweep meets: when the sweep returns,
  the events it leaves in the store are a subsequence of the events that were there,
  and the events whose action is not \<^verbatim>\<open>'blocked'\<close> are the same, in the same order, so
  only \<^verbatim>\<open>'blocked'\<close> events have been removed; when the sweep raises, the store holds
  every event that was there, followed by the events recorded meanwhile.
\<close>

theorem sweep_keeps_other_events:
  assumes result: "check_expired_blocks lib w = (r, w')"
  shows "(r = Inr () \<longrightarrow>
           subseq (stored_events w') (stored_events w)
           \<and> other_events (stored_events w') = other_events (stored_events w))
    \<and> (\<forall>x. r = Inl x \<longrightarrow> (\<exists>logged. stored_events w' = stored_events w @ logged))"
proof (cases "load_blocklist w")
  case (Inl x0)
  with result have "r = Inl x0" and "w' = w"
    by (simp_all add: check_expired_blocks_load_raises)
  then show ?thesis by simp
next
  case (Inr snapshot)
  note events = stored_events_load [OF Inr]
  show ?thesis
  proof (cases r rule: sweep_result_cases)
    case returned
    with result have completes: "check_expired_blocks lib w = (Inr (), w')" by simp
    from sweep_completed [OF Inr completes] obtain u w2 where
      run: "sweep_loop lib (fst (datetime_now w)) snapshot [] (snd (datetime_now w))
              = (Inr u, w2)"
      and w': "w' = save_blocklist u w2"
      by blast
    from sweep_loop_kept [OF run] have "subseq u snapshot"
      and "other_events u = other_events snapshot"
      by auto
    moreover from w' have "stored_events w' = u"
      by (simp add: stored_events_Stored save_blocklist_file)
    ultimately show ?thesis using events returned by simp
  next
    case (raised x)
    with result have "check_expired_blocks lib w = (Inl x, w')" by simp
    from sweep_aborted_store [OF Inr this] events raised show ?thesis by auto
  qed
qed

theorem sweep_keeps_other_events_witness:
  "fst (check_expired_blocks example_lib (sweep_world (\<lambda>n. ok_process))) = Inr ()
   \<and> stored_events (sweep_world (\<lambda>n. ok_process))
       = [unblocked_at_T5, blocked_at_T0, blocked_at_T5]
   \<and> stored_events (snd (check_expired_blocks example_lib (sweep_world (\<lambda>n. ok_process))))
       = [unblocked_at_T5, blocked_at_T5]
   \<and> other_events (stored_events
        (snd (check_expired_blocks example_lib (sweep_world (\<lambda>n. ok_process)))))
       = other_events (stored_events (sweep_world (\<lambda>n. ok_process)))
   \<and> other_events (stored_events (sweep_world (\<lambda>n. ok_process))) = [unblocked_at_T5]"
proof -
  let ?w = "sweep_world (\<lambda>n. ok_process)"
  let ?w' = "snd (check_expired_blocks example_lib ?w)"
  have returned: "fst (check_expired_blocks example_lib ?w) = Inr ()"
    by (rule example_sweep(1))
  then have result: "check_expired_blocks example_lib ?w = (Inr (), ?w')"
    by (simp add: prod_eq_iff)
  from sweep_keeps_other_events [OF result]
  have same: "other_events (stored_events ?w') = other_events (stored_events ?w)"
    by simp
  have before: "stored_events ?w = [unblocked_at_T5, blocked_at_T0, blocked_at_T5]"
    by (simp add: stored_events_load [OF sweep_world_start(1)] three_events_def)
  have after: "stored_events ?w' = [unblocked_at_T5, blocked_at_T5]"
    by (simp add: stored_events_Stored example_sweep example_processes)
  have "other_events [unblocked_at_T5, blocked_at_T0, blocked_at_T5] = [unblocked_at_T5]"
    by (simp add: other_events_def example_entries)
  with returned same before after show ?thesis by simp
qed

lemma example_isoformat:
  "isoformat example_lib (T0 + minutes 61) = ''2024-01-01T01:01:00''"
  by (simp add: example_lib_def minutes_def)

text \<open>
  C10. When the sweep returns: just before its last write the store held the loaded
  events followed by the \<^verbatim>\<open>'unblocked'\<close> events that its calls of \<^verbatim>\<open>unblock_ip\<close> had
  recorded; after the write the file holds the list the loop built, a subsequence of the
  loaded events, and nothing else. So an event recorded during the sweep is in the
  store afterwards only if an equal event was loaded at the start. (The last write
  puts the loop's list in the file whatever the file holds then:
  \<open>save_blocklist_file\<close>.)
\<close>

theorem sweep_rewrite_drops_appended_events:
  assumes load: "load_blocklist w = Inr snapshot"
    and completes: "check_expired_blocks lib w = (Inr (), w')"
  shows "\<exists>updated_list w2 logged.
      sweep_loop lib (fst (datetime_now w)) snapshot [] (snd (datetime_now w))
        = (Inr updated_list, w2)
      \<and> stored_events w2 = snapshot @ logged
      \<and> (\<forall>x \<in> set logged. action x = ''unblocked'')
      \<and> blocklist_file w' = Stored updated_list
      \<and> subseq updated_list snapshot
      \<and> (\<forall>x \<in> set logged. x \<notin> set snapshot \<longrightarrow> x \<notin> set (stored_events w'))"
proof -
  from sweep_completed [OF load completes] obtain u w2 where
    run: "sweep_loop lib (fst (datetime_now w)) snapshot [] (snd (datetime_now w))
            = (Inr u, w2)"
    and w': "w' = save_blocklist u w2"
    by blast
  from sweep_loop_logged [OF run] stored_events_at_start [OF load] obtain logged where
    logged: "stored_events w2 = snapshot @ logged"
      "\<forall>x \<in> set logged. action x = ''unblocked''"
    by auto
  from sweep_loop_kept [OF run] have sub: "subseq u snapshot"
    by auto
  from w' have stored: "blocklist_file w' = Stored u"
    by (simp add: save_blocklist_file)
  then have "stored_events w' = u"
    by (rule stored_events_Stored)
  with sub have "\<forall>x \<in> set logged. x \<notin> set snapshot \<longrightarrow> x \<notin> set (stored_events w')"
    by (auto dest: subseq_member)
  with run logged stored sub show ?thesis by blast
qed

theorem sweep_rewrite_drops_appended_events_witness:
  "load_blocklist (sweep_world (\<lambda>n. ok_process)) = Inr three_events
   \<and> fst (check_expired_blocks example_lib (sweep_world (\<lambda>n. ok_process))) = Inr ()
   \<and> stored_events (snd (sweep_loop example_lib
        (fst (datetime_now (sweep_world (\<lambda>n. ok_process)))) three_events []
        (snd (datetime_now (sweep_world (\<lambda>n. ok_process))))))
       = three_events @
           [\<lparr>time = ''2024-01-01T01:01:00'', ip = ''198.51.100.7'', action = ''unblocked''\<rparr>]
   \<and> blocklist_file (snd (check_expired_blocks example_lib (sweep_world (\<lambda>n. ok_process))))
       = Stored [unblocked_at_T5, blocked_at_T5]
   \<and> \<lparr>time = ''2024-01-01T01:01:00'', ip = ''198.51.100.7'', action = ''unblocked''\<rparr>
       \<notin> set (stored_events
            (snd (check_expired_blocks example_lib (sweep_world (\<lambda>n. ok_process)))))"
proof -
  let ?w = "sweep_world (\<lambda>n. ok_process)"
  let ?w' = "snd (check_expired_blocks example_lib ?w)"
  let ?new = "\<lparr>time = ''2024-01-01T01:01:00'', ip = ''198.51.100.7'', action = ''unblocked''\<rparr>"
  have returned: "fst (check_expired_blocks example_lib ?w) = Inr ()"
    by (rule example_sweep(1))
  then have completes: "check_expired_blocks example_lib ?w = (Inr (), ?w')"
    by (simp add: prod_eq_iff)
  from sweep_rewrite_drops_appended_events [OF sweep_world_start(1) completes]
  obtain updated_list where sub: "subseq updated_list three_events"
    and stored': "blocklist_file ?w' = Stored updated_list"
    by blast
  have stored: "blocklist_file ?w' = Stored [unblocked_at_T5, blocked_at_T5]"
    by (simp add: example_sweep example_processes)
  have before_write: "stored_events (snd (sweep_loop example_lib (fst (datetime_now ?w))
      three_events [] (snd (datetime_now ?w)))) = three_events @ [?new]"
    by (simp add: sweep_world_start example_sweep_loop unblock_ip_store
        first_child_def [symmetric] second_child_def [symmetric] example_processes
        example_isoformat)
  have "?new \<notin> set three_events"
    by (simp add: three_events_def unblocked_at_T5_def blocked_at_T0_def blocked_at_T5_def)
  with sub have "?new \<notin> set updated_list"
    by (auto dest: subseq_member)
  with stored' have "?new \<notin> set (stored_events ?w')"
    by (simp add: stored_events_Stored)
  with returned stored before_write sweep_world_start(1) [of "\<lambda>n. ok_process"]
  show ?thesis by simp
qed

end
